theory Spec2Isabelle
  imports Main
begin

section \<open>Configuration trees and the process environment\<close>

text \<open>
  The loader of \<^verbatim>\<open>python/setup.py\<close> reads a YAML document with
  \<^verbatim>\<open>yaml.safe_load\<close> and walks the resulting Python value. A scalar is
  \<^verbatim>\<open>None\<close>, a bool, an int, a str, or another value (float, date, timestamp)
  that is carried as the text \<^verbatim>\<open>str()\<close> returns for it and has no
  \<^verbatim>\<open>upper\<close> method; binary values are outside the model. Mapping keys are
  scalars (the loader refuses unhashable keys); a mapping is the list of its items in
  iteration order. An int is taken to be within the interpreter's limit on the digits of
  a decimal conversion.

  \<^verbatim>\<open>str.upper\<close> is the interpreter's Unicode upper-casing. The theory does not
  define it: every function that calls it takes it as the argument \<open>up\<close>, and every
  general theorem holds for any function in its place. \<open>ascii_upper\<close> is its
  restriction to ASCII text, where it maps the letters a to z to A to Z and leaves every
  other character alone; the examples use it on ASCII keys.
\<close>

datatype scalar = SNone | SBool bool | SInt int | SStr string | SOther string

datatype yaml = Scalar scalar | Dict "(scalar \<times> yaml) list" | Seq "yaml list"

datatype error = AttributeError | ValueError | OSError

type_synonym environ = "string \<rightharpoonup> string"

definition upper_char :: "char \<Rightarrow> char" where
  "upper_char c =
     (case map_of (zip ''abcdefghijklmnopqrstuvwxyz'' ''ABCDEFGHIJKLMNOPQRSTUVWXYZ'') c of
        Some u \<Rightarrow> u
      | None \<Rightarrow> c)"

definition ascii_upper :: "string \<Rightarrow> string" where
  "ascii_upper s = map upper_char s"

text \<open>\<^verbatim>\<open>str(n)\<close> for a natural number: its decimal digits.\<close>

fun str_nat :: "nat \<Rightarrow> string" where
  "str_nat n =
     (if n < 10 then [''0123456789'' ! n]
      else str_nat (n div 10) @ [''0123456789'' ! (n mod 10)])"

declare str_nat.simps [simp del]

definition str_int :: "int \<Rightarrow> string" where
  "str_int i = (if i < 0 then ''-'' @ str_nat (nat (- i)) else str_nat (nat i))"

fun str :: "scalar \<Rightarrow> string" where
  "str SNone = ''None''"
| "str (SBool b) = (if b then ''True'' else ''False'')"
| "str (SInt i) = str_int i"
| "str (SStr s) = s"
| "str (SOther s) = s"

text \<open>\<^verbatim>\<open>key.upper()\<close>: only a str has the method; any other key raises.\<close>

fun key_upper :: "(string \<Rightarrow> string) \<Rightarrow> scalar \<Rightarrow> error + string" where
  "key_upper up (SStr s) = Inr (up s)"
| "key_upper up _ = Inl AttributeError"

text \<open>
  \<^verbatim>\<open>os.environ[k] = v\<close> (CPython 3.11 on POSIX). A NUL byte in the name or in
  the value raises \<^verbatim>\<open>ValueError\<close> when the strings are converted; a name with
  \<^verbatim>\<open>=\<close> raises \<^verbatim>\<open>ValueError\<close>; the empty name makes
  \<^verbatim>\<open>setenv\<close> fail and raises \<^verbatim>\<open>OSError\<close>. In each case the
  environment is unchanged. An exception leaves the environment as mutated so far, so the
  failing branch carries it.
\<close>

definition legal_value :: "string \<Rightarrow> bool" where
  "legal_value v = (CHR 0x00 \<notin> set v)"

definition legal_name :: "string \<Rightarrow> bool" where
  "legal_name k = (k \<noteq> [] \<and> CHR ''='' \<notin> set k \<and> legal_value k)"

definition environ_setitem :: "environ \<Rightarrow> string \<Rightarrow> string \<Rightarrow> (error \<times> environ) + environ" where
  "environ_setitem env k v =
     (if \<not> legal_value k \<or> \<not> legal_value v \<or> CHR ''='' \<in> set k then Inl (ValueError, env)
      else if k = [] then Inl (OSError, env)
      else Inr (env(k \<mapsto> v)))"

section \<open>Flattening: \<^verbatim>\<open>set_env_vars\<close>\<close>

text \<open>
  \<^verbatim>\<open>set_env_vars(data, prefix="")\<close>. The two \<^verbatim>\<open>for\<close> loops are
  \<open>dict_loop\<close> (over \<^verbatim>\<open>data.items()\<close>) and \<open>list_loop\<close> (over
  \<^verbatim>\<open>enumerate(data)\<close>, with the running index).
\<close>

fun set_env_vars ::
    "(string \<Rightarrow> string) \<Rightarrow> yaml \<Rightarrow> string \<Rightarrow> environ \<Rightarrow> (error \<times> environ) + environ"
  and dict_loop ::
    "(string \<Rightarrow> string) \<Rightarrow> (scalar \<times> yaml) list \<Rightarrow> string \<Rightarrow> environ
       \<Rightarrow> (error \<times> environ) + environ"
  and list_loop ::
    "(string \<Rightarrow> string) \<Rightarrow> yaml list \<Rightarrow> nat \<Rightarrow> string \<Rightarrow> environ
       \<Rightarrow> (error \<times> environ) + environ"
where
  "set_env_vars up (Dict items) prefix env = dict_loop up items prefix env"
| "set_env_vars up (Seq xs) prefix env = list_loop up xs 0 prefix env"
| "set_env_vars up (Scalar v) prefix env = environ_setitem env prefix (str v)"
| "dict_loop up [] prefix env = Inr env"
| "dict_loop up ((key, val) # rest) prefix env =
     (case key_upper up key of
        Inl e \<Rightarrow> Inl (e, env)
      | Inr ku \<Rightarrow>
          (case set_env_vars up val (if prefix \<noteq> [] then prefix @ ''_'' @ ku else ku) env of
             Inl x \<Rightarrow> Inl x
           | Inr env' \<Rightarrow> dict_loop up rest prefix env'))"
| "list_loop up [] index prefix env = Inr env"
| "list_loop up (val # rest) index prefix env =
     (case set_env_vars up val
             (if prefix \<noteq> [] then prefix @ ''_'' @ str_nat index else str_nat index) env of
        Inl x \<Rightarrow> Inl x
      | Inr env' \<Rightarrow> list_loop up rest (Suc index) prefix env')"

section \<open>Leaves, paths and derived keys\<close>

text \<open>
  A leaf of a tree is a scalar together with the path that leads to it: the mapping keys
  and sequence positions from the root. \<open>leaves\<close> lists the leaves in traversal
  order (items in iteration order, elements by rising index). The key derived from a path
  joins the texts of its segments (the upper-cased mapping key, the decimal index) onto
  the starting prefix, with an underscore before a segment unless the prefix built so far
  is empty. A mapping key that is not a str has no text.
\<close>

datatype segment = Key scalar | Index nat

fun leaves :: "yaml \<Rightarrow> (segment list \<times> scalar) list"
  and leaves_dict :: "(scalar \<times> yaml) list \<Rightarrow> (segment list \<times> scalar) list"
  and leaves_seq :: "yaml list \<Rightarrow> nat \<Rightarrow> (segment list \<times> scalar) list"
where
  "leaves (Scalar v) = [([], v)]"
| "leaves (Dict items) = leaves_dict items"
| "leaves (Seq xs) = leaves_seq xs 0"
| "leaves_dict [] = []"
| "leaves_dict ((k, d) # rest) = map (\<lambda>(p, v). (Key k # p, v)) (leaves d) @ leaves_dict rest"
| "leaves_seq [] i = []"
| "leaves_seq (d # rest) i = map (\<lambda>(p, v). (Index i # p, v)) (leaves d) @ leaves_seq rest (Suc i)"

fun segment_text :: "(string \<Rightarrow> string) \<Rightarrow> segment \<Rightarrow> string option" where
  "segment_text up (Key (SStr s)) = Some (up s)"
| "segment_text up (Key _) = None"
| "segment_text up (Index i) = Some (str_nat i)"

fun path_key :: "(string \<Rightarrow> string) \<Rightarrow> string \<Rightarrow> segment list \<Rightarrow> string option" where
  "path_key up prefix [] = Some prefix"
| "path_key up prefix (s # ss) =
     (case segment_text up s of
        None \<Rightarrow> None
      | Some t \<Rightarrow> path_key up (if prefix \<noteq> [] then prefix @ ''_'' @ t else t) ss)"

text \<open>
  The derived key and the stringified value of every leaf, when every key on the way has
  a text; and the environment after storing a list of such pairs in order.
\<close>

definition keyed ::
    "(string \<Rightarrow> string) \<Rightarrow> string \<Rightarrow> (segment list \<times> scalar) list \<Rightarrow> (string \<times> string) list option" where
  "keyed up prefix ls =
     those (map (\<lambda>(p, v). map_option (\<lambda>k. (k, str v)) (path_key up prefix p)) ls)"

definition store_all :: "(string \<times> string) list \<Rightarrow> environ \<Rightarrow> environ" where
  "store_all items env = fold (\<lambda>(k, v) e. e(k \<mapsto> v)) items env"

text \<open>
  The key of a path as the specification words it: \<open>"_"\<close> and the text of the
  segment are appended to the running prefix at every mapping and sequence node.
\<close>

fun spec_path_key :: "(string \<Rightarrow> string) \<Rightarrow> string \<Rightarrow> segment list \<Rightarrow> string option" where
  "spec_path_key up prefix [] = Some prefix"
| "spec_path_key up prefix (s # ss) =
     (case segment_text up s of
        None \<Rightarrow> None
      | Some t \<Rightarrow> spec_path_key up (prefix @ ''_'' @ t) ss)"

definition spec_keyed ::
    "(string \<Rightarrow> string) \<Rightarrow> string \<Rightarrow> (segment list \<times> scalar) list \<Rightarrow> (string \<times> string) list option" where
  "spec_keyed up prefix ls =
     those (map (\<lambda>(p, v). map_option (\<lambda>k. (k, str v)) (spec_path_key up prefix p)) ls)"

text \<open>
  The outcome of a run from the empty environment, laid over an environment: the
  variables the run stored replace those of the environment, on both branches.
\<close>

definition overlay :: "environ \<Rightarrow> (error \<times> environ) + environ \<Rightarrow> (error \<times> environ) + environ" where
  "overlay env r = (case r of Inl (err, m) \<Rightarrow> Inl (err, env ++ m) | Inr m \<Rightarrow> Inr (env ++ m))"

section \<open>Loading the configuration: \<^verbatim>\<open>load_config\<close>\<close>

text \<open>
  What the file system and the YAML parser answer at a path is given: the file is missing
  (\<^verbatim>\<open>os.path.exists\<close> is false), it exists but \<^verbatim>\<open>open\<close> raises,
  \<^verbatim>\<open>yaml.safe_load\<close> raises \<^verbatim>\<open>YAMLError\<close> (with the text of the
  exception), \<^verbatim>\<open>yaml.safe_load\<close> raises an exception of another class (a
  \<^verbatim>\<open>ValueError\<close> from the date constructor for a timestamp out of range such as
  \<^verbatim>\<open>2001-13-45\<close>, a \<^verbatim>\<open>UnicodeDecodeError\<close>, which is a
  \<^verbatim>\<open>ValueError\<close> too, for bytes that are not text), or the document loads.
\<close>

datatype file_state = Missing | Unreadable | Malformed string | Rejected error | Document yaml

text \<open>
  The logger handed to \<^verbatim>\<open>load_config\<close> has a level and receives calls of its
  \<^verbatim>\<open>info\<close>, \<^verbatim>\<open>warning\<close> and \<^verbatim>\<open>error\<close> methods, kept in
  the order they are made; what the handlers emit for them belongs to the logging
  library. The state is the process environment and that logger.
\<close>

datatype log_method = Info | Warning | Error

record logger =
  logger_level :: nat
  logger_calls :: "(log_method \<times> string) list"

record state =
  os_environ :: environ
  active_logger :: logger

definition log_call :: "log_method \<Rightarrow> string \<Rightarrow> state \<Rightarrow> state" where
  "log_call m text st =
     st\<lparr>active_logger := (active_logger st)\<lparr>logger_calls := logger_calls (active_logger st) @ [(m, text)]\<rparr>\<rparr>"

text \<open>
  \<^verbatim>\<open>Logger.setLevel\<close> on a str: the names of \<^verbatim>\<open>logging._nameToLevel\<close>
  give the numeric level; any other text raises \<^verbatim>\<open>ValueError\<close> and leaves the
  level as it was.
\<close>

definition nameToLevel :: "(string \<times> nat) list" where
  "nameToLevel =
     [(''CRITICAL'', 50), (''FATAL'', 50), (''ERROR'', 40), (''WARN'', 30), (''WARNING'', 30),
      (''INFO'', 20), (''DEBUG'', 10), (''NOTSET'', 0)]"

definition checkLevel :: "string \<Rightarrow> error + nat" where
  "checkLevel lvl = (case map_of nameToLevel lvl of None \<Rightarrow> Inl ValueError | Some n \<Rightarrow> Inr n)"

definition setLevel :: "string \<Rightarrow> state \<Rightarrow> error + state" where
  "setLevel lvl st =
     (case checkLevel lvl of
        Inl e \<Rightarrow> Inl e
      | Inr n \<Rightarrow> Inr (st\<lparr>active_logger := (active_logger st)\<lparr>logger_level := n\<rparr>\<rparr>))"

text \<open>
  \<^verbatim>\<open>load_config(path_to_config, logger)\<close>. The two assignments to
  \<^verbatim>\<open>FIRST_RUN\<close> store literals the environment accepts. Exceptions that
  \<^verbatim>\<open>load_config\<close> does not catch (from \<^verbatim>\<open>open\<close>, from
  \<^verbatim>\<open>yaml.safe_load\<close> when it is not a \<^verbatim>\<open>YAMLError\<close>, and from
  \<^verbatim>\<open>set_env_vars\<close>) are the \<open>Inl\<close> results; the returned bool is
  \<open>Inr\<close>.
\<close>

definition load_config ::
    "(string \<Rightarrow> string) \<Rightarrow> (string \<Rightarrow> file_state) \<Rightarrow> string \<Rightarrow> state \<Rightarrow> (error + bool) \<times> state" where
  "load_config up fs path_to_config st0 =
     (let st1 = log_call Info ''Attempting to load config'' st0 in
      case fs path_to_config of
        Missing \<Rightarrow>
          (Inr False,
           log_call Warning ''Config file does not exist, assuming first run''
             (st1\<lparr>os_environ := (os_environ st1)(''FIRST_RUN'' \<mapsto> ''True'')\<rparr>))
      | Unreadable \<Rightarrow>
          (Inl OSError, st1\<lparr>os_environ := (os_environ st1)(''FIRST_RUN'' \<mapsto> ''False'')\<rparr>)
      | Malformed exc \<Rightarrow>
          (Inr False,
           log_call Info (''Config could not be loaded. Please make sure the config file is valid.'' @
                          ''Optionally, delete the config file to generate a new one on next startup.'')
             (log_call Error exc
                (st1\<lparr>os_environ := (os_environ st1)(''FIRST_RUN'' \<mapsto> ''False'')\<rparr>)))
      | Rejected e \<Rightarrow>
          (Inl e, st1\<lparr>os_environ := (os_environ st1)(''FIRST_RUN'' \<mapsto> ''False'')\<rparr>)
      | Document data \<Rightarrow>
          (let st2 = log_call Info ''Config loaded, setting environment variables''
                       (st1\<lparr>os_environ := (os_environ st1)(''FIRST_RUN'' \<mapsto> ''False'')\<rparr>) in
           case set_env_vars up data [] (os_environ st2) of
             Inl (e, env) \<Rightarrow> (Inl e, st2\<lparr>os_environ := env\<rparr>)
           | Inr env \<Rightarrow>
               (let st3 = st2\<lparr>os_environ := env\<rparr> in
                case os_environ st3 ''LOGGING_LEVEL'' of
                  None \<Rightarrow> (Inr True, st3)
                | Some lvl \<Rightarrow>
                    if lvl = [] then (Inr True, st3)
                    else (case setLevel lvl st3 of
                            Inl e \<Rightarrow>
                              if e = ValueError
                              then (Inr False, log_call Error (''Invalid logging level: '' @ lvl) st3)
                              else (Inl e, st3)
                          | Inr st4 \<Rightarrow> (Inr True, st4)))))"

text \<open>
  A start state for the examples: an empty environment and a logger at INFO with no
  calls yet.
\<close>

definition st_init :: state where
  "st_init = \<lparr>os_environ = Map.empty, active_logger = \<lparr>logger_level = 20, logger_calls = []\<rparr>\<rparr>"

section \<open>Logging setup: \<^verbatim>\<open>logger_config.py\<close>\<close>

text \<open>
  A log record carries the name of its logger, its numeric level and its message. The
  filter of \<^verbatim>\<open>python/logger_config.py\<close> reads the module constant
  \<^verbatim>\<open>LOGGING_FILTER\<close>, given here as an argument; the one of the top-level
  \<^verbatim>\<open>logger_config.py\<close> reads the constant \<^verbatim>\<open>FILTER\<close>.
\<close>

record log_record =
  name :: string
  levelno :: nat
  msg :: string

definition LoggingFilter_filter :: "string list \<Rightarrow> log_record \<Rightarrow> bool" where
  "LoggingFilter_filter LOGGING_FILTER r = (if name r \<in> set LOGGING_FILTER then False else True)"

definition FILTER :: "string list" where
  "FILTER = [''websockets.server'', ''websockets.client'']"

definition LoggingFilter_filter_toplevel :: "log_record \<Rightarrow> bool" where
  "LoggingFilter_filter_toplevel r = (if name r \<in> set FILTER then False else True)"

text \<open>
  The logger registry maps a logger name to its level; the root logger has the empty
  name. \<^verbatim>\<open>logging.INFO\<close> is 20.
\<close>

type_synonym registry = "string \<Rightarrow> nat"

definition logging_INFO :: nat where
  "logging_INFO = 20"

definition set_log_level :: "string \<Rightarrow> nat \<Rightarrow> registry \<Rightarrow> registry" where
  "set_log_level logger level reg = reg('''' := logging_INFO)"

text \<open>
  The dictionary handed to \<^verbatim>\<open>logging.config.dictConfig\<close>: the formatters with
  their factory (the \<^verbatim>\<open>()\<close> entry, absent for the standard formatter) and format,
  the two handlers, and the root logger. \<^verbatim>\<open>Formatter\<close> is
  \<^verbatim>\<open>logging.Formatter\<close>. The path of the log file depends on the date and is an
  argument.
\<close>

datatype formatter_class = ColoredFormatter | Formatter

record formatter_entry =
  factory :: "formatter_class option"
  format_string :: string

record handler_entry =
  handler_level :: string
  handler_formatter :: string
  handler_class :: string
  handler_filename :: "string option"
  handler_filters :: "string list"

record logging_config =
  formatters :: "(string \<times> formatter_entry) list"
  handlers :: "(string \<times> handler_entry) list"
  root_handlers :: "string list"
  root_level :: string

text \<open>
  \<^verbatim>\<open>python/logger_config.py\<close> reads the level, the format and the colour flag
  from the environment.
\<close>

definition log_level :: "environ \<Rightarrow> string" where
  "log_level env =
     (case env ''LOGGING_LEVEL'' of
        None \<Rightarrow> ''INFO''
      | Some l \<Rightarrow> if l \<noteq> [] then l else ''INFO'')"

definition log_format :: "environ \<Rightarrow> string" where
  "log_format env =
     (if log_level env = ''DEBUG''
      then ''%(asctime)s [%(levelname)s] %(module)s.%(funcName)s | %(name)s: %(message)s''
      else ''%(asctime)s [%(levelname)s] %(name)s: %(message)s'')"

definition LOGGING_CONFIG :: "environ \<Rightarrow> string \<Rightarrow> logging_config" where
  "LOGGING_CONFIG env LOG_FILE_PATH =
     \<lparr>formatters =
        [(''colored'',
          \<lparr>factory = Some (if env ''LOGGING_COLORED'' = Some ''True'' then ColoredFormatter else Formatter),
           format_string = log_format env\<rparr>),
         (''standard'', \<lparr>factory = None, format_string = log_format env\<rparr>)],
      handlers =
        [(''default'',
          \<lparr>handler_level = log_level env, handler_formatter = ''colored'',
           handler_class = ''logging.StreamHandler'', handler_filename = None,
           handler_filters = [''websockets_filter'']\<rparr>),
         (''file'',
          \<lparr>handler_level = log_level env, handler_formatter = ''standard'',
           handler_class = ''logging.FileHandler'', handler_filename = Some LOG_FILE_PATH,
           handler_filters = [''websockets_filter'']\<rparr>)],
      root_handlers = [''default'', ''file''],
      root_level = log_level env\<rparr>"

text \<open>
  The top-level \<^verbatim>\<open>logger_config.py\<close> reads nothing from the environment: its
  level is a constant and its colored formatter is always \<^verbatim>\<open>ColoredFormatter\<close>.
\<close>

definition LOG_LEVEL :: string where
  "LOG_LEVEL = ''DEBUG''"

definition LOGGING_CONFIG_toplevel :: "string \<Rightarrow> logging_config" where
  "LOGGING_CONFIG_toplevel LOG_FILE_PATH =
     \<lparr>formatters =
        [(''colored'',
          \<lparr>factory = Some ColoredFormatter,
           format_string = ''%(asctime)s [%(levelname)s] %(name)s: %(message)s''\<rparr>),
         (''standard'',
          \<lparr>factory = None,
           format_string = ''%(asctime)s [%(levelname)s] %(name)s: %(message)s''\<rparr>)],
      handlers =
        [(''default'',
          \<lparr>handler_level = LOG_LEVEL, handler_formatter = ''colored'',
           handler_class = ''logging.StreamHandler'', handler_filename = None,
           handler_filters = [''websockets_filter'']\<rparr>),
         (''file'',
          \<lparr>handler_level = LOG_LEVEL, handler_formatter = ''standard'',
           handler_class = ''logging.FileHandler'', handler_filename = Some LOG_FILE_PATH,
           handler_filters = [''websockets_filter'']\<rparr>)],
      root_handlers = [''default'', ''file''],
      root_level = LOG_LEVEL\<rparr>"

text \<open>
  \<^verbatim>\<open>logging.config.dictConfig\<close>, as far as the two dictionaries use it. Each
  handler, in the order of the names, gets the formatter it names, built with its factory
  and with \<^verbatim>\<open>logging.Formatter\<close> when none is given; its level must be one the
  logging library knows, and a file handler opens its file for appending (\<open>can_append\<close>
  says whether the file system lets it). Then the root logger gets its level and the
  handlers it names. Any failure is raised as \<^verbatim>\<open>ValueError\<close> and no handler
  is installed; on success the result lists the handlers with the class of their
  formatter.
\<close>

definition configure_handler ::
    "(string \<Rightarrow> bool) \<Rightarrow> logging_config \<Rightarrow> handler_entry \<Rightarrow> error + formatter_class" where
  "configure_handler can_append cfg h =
     (case map_of (formatters cfg) (handler_formatter h) of
        None \<Rightarrow> Inl ValueError
      | Some f \<Rightarrow>
          if (case handler_filename h of None \<Rightarrow> False | Some p \<Rightarrow> \<not> can_append p)
          then Inl ValueError
          else if isl (checkLevel (handler_level h)) then Inl ValueError
          else Inr (case factory f of None \<Rightarrow> Formatter | Some c \<Rightarrow> c))"

fun configure_handlers ::
    "(string \<Rightarrow> bool) \<Rightarrow> logging_config \<Rightarrow> (string \<times> handler_entry) list
       \<Rightarrow> error + (string \<times> formatter_class) list" where
  "configure_handlers can_append cfg [] = Inr []"
| "configure_handlers can_append cfg ((n, h) # rest) =
     (case configure_handler can_append cfg h of
        Inl e \<Rightarrow> Inl e
      | Inr c \<Rightarrow>
          (case configure_handlers can_append cfg rest of
             Inl e \<Rightarrow> Inl e
           | Inr sinks \<Rightarrow> Inr ((n, c) # sinks)))"

definition dictConfig ::
    "(string \<Rightarrow> bool) \<Rightarrow> logging_config \<Rightarrow> error + (string \<times> formatter_class) list" where
  "dictConfig can_append cfg =
     (case configure_handlers can_append cfg (handlers cfg) of
        Inl e \<Rightarrow> Inl e
      | Inr sinks \<Rightarrow>
          if isl (checkLevel (root_level cfg)) then Inl ValueError
          else if list_all (\<lambda>n. map_of sinks n \<noteq> None) (root_handlers cfg) then Inr sinks
          else Inl ValueError)"

section \<open>The flattening run and the derived keys\<close>

lemma those_append:
  "those (xs @ ys) = (case those xs of None \<Rightarrow> None | Some a \<Rightarrow> map_option ((@) a) (those ys))"
proof (induction xs)
  case Nil
  show ?case by (cases "those ys") simp_all
next
  case (Cons x xs)
  then show ?case by (cases x; cases "those xs"; cases "those ys") simp_all
qed

lemma keyed_Nil [simp]: "keyed up p [] = Some []"
  by (simp add: keyed_def)

lemma keyed_append:
  "keyed up p (xs @ ys) = (case keyed up p xs of None \<Rightarrow> None | Some a \<Rightarrow> map_option ((@) a) (keyed up p ys))"
  by (simp add: keyed_def those_append split: option.splits)

lemma keyed_Key:
  "key_upper up k = Inr ku \<Longrightarrow>
   keyed up p (map (\<lambda>(q, v). (Key k # q, v)) ls) = keyed up (if p \<noteq> [] then p @ ''_'' @ ku else ku) ls"
  by (cases k) (auto simp: keyed_def comp_def case_prod_unfold)

lemma keyed_Index:
  "keyed up p (map (\<lambda>(q, v). (Index i # q, v)) ls) = keyed up (if p \<noteq> [] then p @ ''_'' @ str_nat i else str_nat i) ls"
  by (auto simp: keyed_def comp_def case_prod_unfold)

lemma store_all_append: "store_all (xs @ ys) env = store_all ys (store_all xs env)"
  by (simp add: store_all_def)

lemma set_env_vars_keyed:
  "set_env_vars up d p env = Inr env' \<Longrightarrow>
     \<exists>items. keyed up p (leaves d) = Some items \<and> env' = store_all items env
       \<and> (\<forall>(k, v) \<in> set items. legal_name k \<and> legal_value v)"
  "dict_loop up its p env = Inr env' \<Longrightarrow>
     \<exists>items. keyed up p (leaves_dict its) = Some items \<and> env' = store_all items env
       \<and> (\<forall>(k, v) \<in> set items. legal_name k \<and> legal_value v)"
  "list_loop up xs i p env = Inr env' \<Longrightarrow>
     \<exists>items. keyed up p (leaves_seq xs i) = Some items \<and> env' = store_all items env
       \<and> (\<forall>(k, v) \<in> set items. legal_name k \<and> legal_value v)"
proof (induction up d p env and up its p env and up xs i p env arbitrary: env' and env' and env'
       rule: set_env_vars_dict_loop_list_loop.induct)
  case (1 up items prefix env)
  then show ?case by simp
next
  case (2 up xs prefix env)
  then show ?case by simp
next
  case (3 up v prefix env)
  then show ?case
    by (auto simp: environ_setitem_def legal_name_def keyed_def store_all_def split: if_splits)
next
  case (4 up prefix env)
  then show ?case by (simp add: store_all_def)
next
  case (5 up key val rest prefix env)
  from "5.prems" obtain ku env1 where
    ku: "key_upper up key = Inr ku" and
    r1: "set_env_vars up val (if prefix \<noteq> [] then prefix @ ''_'' @ ku else ku) env = Inr env1" and
    r2: "dict_loop up rest prefix env1 = Inr env'"
    by (auto split: sum.splits)
  from "5.IH"(1)[OF ku r1] obtain xs where
    xs: "keyed up (if prefix \<noteq> [] then prefix @ ''_'' @ ku else ku) (leaves val) = Some xs"
      "env1 = store_all xs env" "\<forall>(k, v) \<in> set xs. legal_name k \<and> legal_value v"
    by blast
  from "5.IH"(2)[OF ku r1 r2] obtain ys where
    ys: "keyed up prefix (leaves_dict rest) = Some ys"
      "env' = store_all ys env1" "\<forall>(k, v) \<in> set ys. legal_name k \<and> legal_value v"
    by blast
  have "keyed up prefix (leaves_dict ((key, val) # rest)) = Some (xs @ ys)"
    using xs(1) ys(1) by (simp add: keyed_append keyed_Key[OF ku])
  moreover have "env' = store_all (xs @ ys) env"
    using xs(2) ys(2) by (simp add: store_all_append)
  moreover have "\<forall>(k, v) \<in> set (xs @ ys). legal_name k \<and> legal_value v"
    using xs(3) ys(3) by auto
  ultimately show ?case by blast
next
  case (6 up index prefix env)
  then show ?case by (simp add: store_all_def)
next
  case (7 up val rest index prefix env)
  from "7.prems" obtain env1 where
    r1: "set_env_vars up val (if prefix \<noteq> [] then prefix @ ''_'' @ str_nat index else str_nat index) env = Inr env1" and
    r2: "list_loop up rest (Suc index) prefix env1 = Inr env'"
    by (auto split: sum.splits)
  from "7.IH"(1)[OF r1] obtain xs where
    xs: "keyed up (if prefix \<noteq> [] then prefix @ ''_'' @ str_nat index else str_nat index) (leaves val) = Some xs"
      "env1 = store_all xs env" "\<forall>(k, v) \<in> set xs. legal_name k \<and> legal_value v"
    by blast
  from "7.IH"(2)[OF r1 r2] obtain ys where
    ys: "keyed up prefix (leaves_seq rest (Suc index)) = Some ys"
      "env' = store_all ys env1" "\<forall>(k, v) \<in> set ys. legal_name k \<and> legal_value v"
    by blast
  have "keyed up prefix (leaves_seq (val # rest) index) = Some (xs @ ys)"
    using xs(1) ys(1) by (simp add: keyed_append keyed_Index)
  moreover have "env' = store_all (xs @ ys) env"
    using xs(2) ys(2) by (simp add: store_all_append)
  moreover have "\<forall>(k, v) \<in> set (xs @ ys). legal_name k \<and> legal_value v"
    using xs(3) ys(3) by auto
  ultimately show ?case by blast
qed

lemma str_nat_digit: "n < 10 \<Longrightarrow> str_nat n = [''0123456789'' ! n]"
  by (simp add: str_nat.simps)

lemma store_all_map_add: "store_all items env = env ++ map_of (rev items)"
proof (induction items arbitrary: env)
  case Nil
  show ?case by (simp add: store_all_def)
next
  case (Cons x xs)
  obtain k v where x: "x = (k, v)" by (cases x)
  have "store_all (x # xs) env = store_all xs (env(k \<mapsto> v))"
    by (simp add: store_all_def x)
  also have "\<dots> = env(k \<mapsto> v) ++ map_of (rev xs)"
    by (rule Cons.IH)
  also have "\<dots> = env ++ map_of (rev (x # xs))"
    by (simp add: x map_add_upd_left fun_eq_iff map_add_def split: option.splits)
  finally show ?case .
qed

lemma store_all_outside: "k \<notin> fst ` set items \<Longrightarrow> store_all items env k = env k"
proof -
  assume "k \<notin> fst ` set items"
  then have "map_of (rev items) k = None" by (simp add: map_of_eq_None_iff)
  then show ?thesis by (simp add: store_all_map_add map_add_def)
qed

lemma store_all_inside:
  "k \<in> fst ` set items \<Longrightarrow> store_all items env k = map_of (rev items) k \<and> map_of (rev items) k \<noteq> None"
  by (auto simp add: store_all_map_add map_add_def map_of_eq_None_iff split: option.splits)

lemma store_all_last:
  assumes i: "i < length items" "items ! i = (k, s)"
    and later: "k \<notin> fst ` set (drop (Suc i) items)"
  shows "store_all items env k = Some s"
proof -
  have "items = take i items @ [(k, s)] @ drop (Suc i) items"
    using i id_take_nth_drop[of i items] by simp
  then have "store_all items env
      = store_all (drop (Suc i) items) (store_all [(k, s)] (store_all (take i items) env))"
    by (metis store_all_append)
  then show ?thesis
    using store_all_outside[OF later] by (simp add: store_all_def)
qed

lemma store_all_idem: "store_all items (store_all items env) = store_all items env"
  by (simp add: store_all_map_add fun_eq_iff map_add_def split: option.splits)

lemma keyed_SomeD:
  "keyed up p ls = Some items \<Longrightarrow>
     list_all2 (\<lambda>(q, w) (k, s). path_key up p q = Some k \<and> s = str w) ls items"
proof (induction ls arbitrary: items)
  case Nil
  then show ?case by (simp add: keyed_def)
next
  case (Cons a ls)
  obtain q w where a: "a = (q, w)" by (cases a)
  from Cons.prems obtain k rest where
    k: "path_key up p q = Some k" and rest: "keyed up p ls = Some rest" and items: "items = (k, str w) # rest"
    by (auto simp: keyed_def a split: option.splits)
  from Cons.IH[OF rest] show ?case by (simp add: a items k)
qed

lemma path_key_spec: "prefix \<noteq> [] \<Longrightarrow> path_key up prefix p = spec_path_key up prefix p"
  by (induction p arbitrary: prefix) (auto split: option.splits)

lemma keyed_spec: "prefix \<noteq> [] \<Longrightarrow> keyed up prefix ls = spec_keyed up prefix ls"
  by (simp add: keyed_def spec_keyed_def path_key_spec)

lemma set_env_vars_total:
  "set_env_vars up d p env = Inr env' \<Longrightarrow> \<exists>e. set_env_vars up d p env2 = Inr e"
  "dict_loop up its p env = Inr env' \<Longrightarrow> \<exists>e. dict_loop up its p env2 = Inr e"
  "list_loop up xs i p env = Inr env' \<Longrightarrow> \<exists>e. list_loop up xs i p env2 = Inr e"
proof (induction up d p env and up its p env and up xs i p env arbitrary: env' env2 and env' env2 and env' env2
       rule: set_env_vars_dict_loop_list_loop.induct)
  case (3 up v prefix env)
  then show ?case by (auto simp: environ_setitem_def split: if_splits)
next
  case (5 up key val rest prefix env)
  from "5.prems" obtain ku env1 where
    ku: "key_upper up key = Inr ku" and
    r1: "set_env_vars up val (if prefix \<noteq> [] then prefix @ ''_'' @ ku else ku) env = Inr env1" and
    r2: "dict_loop up rest prefix env1 = Inr env'"
    by (auto split: sum.splits)
  from "5.IH"(1)[OF ku r1] obtain e1 where
    e1: "set_env_vars up val (if prefix \<noteq> [] then prefix @ ''_'' @ ku else ku) env2 = Inr e1"
    by blast
  from "5.IH"(2)[OF ku r1 r2] obtain e where "dict_loop up rest prefix e1 = Inr e" by blast
  with ku e1 show ?case by simp
next
  case (7 up val rest index prefix env)
  from "7.prems" obtain env1 where
    r1: "set_env_vars up val (if prefix \<noteq> [] then prefix @ ''_'' @ str_nat index else str_nat index) env = Inr env1" and
    r2: "list_loop up rest (Suc index) prefix env1 = Inr env'"
    by (auto split: sum.splits)
  from "7.IH"(1)[OF r1] obtain e1 where
    e1: "set_env_vars up val (if prefix \<noteq> [] then prefix @ ''_'' @ str_nat index else str_nat index) env2 = Inr e1"
    by blast
  from "7.IH"(2)[OF r1 r2] obtain e where "list_loop up rest (Suc index) prefix e1 = Inr e" by blast
  with e1 show ?case by simp
qed simp_all

lemma overlay_simps [simp]:
  "overlay env (Inl (err, m)) = Inl (err, env ++ m)"
  "overlay env (Inr m) = Inr (env ++ m)"
  by (simp_all add: overlay_def)

lemma environ_setitem_frame:
  "environ_setitem env k v = overlay env (environ_setitem Map.empty k v)"
proof -
  consider (illegal) "\<not> legal_value k \<or> \<not> legal_value v \<or> CHR ''='' \<in> set k"
    | (empty) "\<not> (\<not> legal_value k \<or> \<not> legal_value v \<or> CHR ''='' \<in> set k)" "k = []"
    | (stored) "\<not> (\<not> legal_value k \<or> \<not> legal_value v \<or> CHR ''='' \<in> set k)" "k \<noteq> []"
    by blast
  then show ?thesis
  proof cases
    case illegal
    then have "environ_setitem env k v = Inl (ValueError, env)"
      and "environ_setitem Map.empty k v = Inl (ValueError, Map.empty)"
      unfolding environ_setitem_def by simp_all
    then show ?thesis by simp
  next
    case empty
    then have "environ_setitem env k v = Inl (OSError, env)"
      and "environ_setitem Map.empty k v = Inl (OSError, Map.empty)"
      unfolding environ_setitem_def by simp_all
    then show ?thesis by simp
  next
    case stored
    then have "environ_setitem env k v = Inr (env(k \<mapsto> v))"
      and "environ_setitem Map.empty k v = Inr [k \<mapsto> v]"
      unfolding environ_setitem_def by simp_all
    then show ?thesis by simp
  qed
qed

lemma set_env_vars_frame_aux:
  fixes env0 :: environ
  shows "\<forall>e. set_env_vars up d p e = overlay e (set_env_vars up d p Map.empty)"
    and "\<forall>e. dict_loop up its p e = overlay e (dict_loop up its p Map.empty)"
    and "\<forall>e. list_loop up xs i p e = overlay e (list_loop up xs i p Map.empty)"
proof (induction up d p env0 and up its p env0 and up xs i p env0
       rule: set_env_vars_dict_loop_list_loop.induct)
  case (3 up v prefix env)
  show ?case
    by (simp only: set_env_vars.simps) (rule allI, rule environ_setitem_frame)
next
  case (5 up key val rest prefix env)
  show ?case
  proof (cases "key_upper up key")
    case (Inl err)
    then show ?thesis by simp
  next
    case (Inr ku)
    let ?np = "if prefix \<noteq> [] then prefix @ ''_'' @ ku else ku"
    note val = "5.IH"(1)[OF Inr]
    show ?thesis
    proof (cases "set_env_vars up val ?np Map.empty")
      case (Inl x)
      obtain err m where x: "x = (err, m)" by (cases x)
      show ?thesis
      proof
        fix e
        from val Inl x have "set_env_vars up val ?np e = Inl (err, e ++ m)" by simp
        with \<open>key_upper up key = Inr ku\<close> Inl x
        show "dict_loop up ((key, val) # rest) prefix e
            = overlay e (dict_loop up ((key, val) # rest) prefix Map.empty)" by simp
      qed
    next
      case (Inr m1)
      with val have "set_env_vars up val ?np env = Inr (env ++ m1)" by simp
      note rest = "5.IH"(2)[OF \<open>key_upper up key = Inr ku\<close> this]
      show ?thesis
      proof
        fix e
        from val Inr have 1: "set_env_vars up val ?np e = Inr (e ++ m1)" by simp
        from rest have 2: "dict_loop up rest prefix (e ++ m1) = overlay (e ++ m1) (dict_loop up rest prefix Map.empty)"
          by blast
        from rest have 3: "dict_loop up rest prefix m1 = overlay m1 (dict_loop up rest prefix Map.empty)"
          by blast
        show "dict_loop up ((key, val) # rest) prefix e
            = overlay e (dict_loop up ((key, val) # rest) prefix Map.empty)"
          using \<open>key_upper up key = Inr ku\<close> Inr 1 2 3
          by (cases "dict_loop up rest prefix Map.empty") auto
      qed
    qed
  qed
next
  case (7 up val rest index prefix env)
  let ?np = "if prefix \<noteq> [] then prefix @ ''_'' @ str_nat index else str_nat index"
  note val = "7.IH"(1)
  show ?case
  proof (cases "set_env_vars up val ?np Map.empty")
    case (Inl x)
    obtain err m where x: "x = (err, m)" by (cases x)
    show ?thesis
    proof
      fix e
      from val Inl x have "set_env_vars up val ?np e = Inl (err, e ++ m)" by simp
      with Inl x
      show "list_loop up (val # rest) index prefix e
          = overlay e (list_loop up (val # rest) index prefix Map.empty)" by simp
    qed
  next
    case (Inr m1)
    with val have "set_env_vars up val ?np env = Inr (env ++ m1)" by simp
    note rest = "7.IH"(2)[OF this]
    show ?thesis
    proof
      fix e
      from val Inr have 1: "set_env_vars up val ?np e = Inr (e ++ m1)" by simp
      from rest have 2: "list_loop up rest (Suc index) prefix (e ++ m1)
          = overlay (e ++ m1) (list_loop up rest (Suc index) prefix Map.empty)"
        by blast
      from rest have 3: "list_loop up rest (Suc index) prefix m1
          = overlay m1 (list_loop up rest (Suc index) prefix Map.empty)"
        by blast
      show "list_loop up (val # rest) index prefix e
          = overlay e (list_loop up (val # rest) index prefix Map.empty)"
        using Inr 1 2 3
        by (cases "list_loop up rest (Suc index) prefix Map.empty") auto
    qed
  qed
next
  case (1 up items prefix env)
  show ?case unfolding set_env_vars.simps by (rule "1.IH")
next
  case (2 up xs prefix env)
  show ?case unfolding set_env_vars.simps by (rule "2.IH")
next
  case (4 up prefix env)
  show ?case by simp
next
  case (6 up index prefix env)
  show ?case by simp
qed

lemma set_env_vars_frame:
  "set_env_vars up d p e = overlay e (set_env_vars up d p Map.empty)"
  using set_env_vars_frame_aux(1) by blast

section \<open>Properties of the flattening\<close>

text \<open>
  C1 (as amended). When \<^verbatim>\<open>set_env_vars\<close> completes without raising, a leaf
  after which, in traversal order, no leaf derives the same key has a derived key and is
  found under it with its stringified value. So a key that one leaf alone derives holds
  the value of that leaf, and a key that several leaves derive is one variable, which
  holds the value of the last of them.
\<close>

theorem set_env_vars_leaf_lookup:
  assumes run: "set_env_vars up d prefix env = Inr env'"
    and leaf: "i < length (leaves d)" "leaves d ! i = (p, v)"
    and last: "\<forall>(q, w) \<in> set (drop (Suc i) (leaves d)). path_key up prefix q \<noteq> path_key up prefix p"
  shows "\<exists>k. path_key up prefix p = Some k \<and> env' k = Some (str v)"
proof -
  from set_env_vars_keyed(1)[OF run] obtain items where
    items: "keyed up prefix (leaves d) = Some items" and env': "env' = store_all items env"
    by blast
  let ?R = "\<lambda>(q, w) (k, s). path_key up prefix q = Some k \<and> s = str w"
  from keyed_SomeD[OF items] have rel: "list_all2 ?R (leaves d) items" .
  then have len: "length items = length (leaves d)" by (simp add: list_all2_lengthD)
  from rel leaf obtain k where k: "path_key up prefix p = Some k" "items ! i = (k, str v)"
    by (cases "items ! i") (auto dest: list_all2_nthD)
  have later: "k \<notin> fst ` set (drop (Suc i) items)"
  proof
    assume "k \<in> fst ` set (drop (Suc i) items)"
    then obtain s' where "(k, s') \<in> set (drop (Suc i) items)" by force
    then obtain j where j: "j < length (drop (Suc i) items)" "drop (Suc i) items ! j = (k, s')"
      by (auto simp: in_set_conv_nth)
    let ?j = "Suc i + j"
    from j len have jl: "?j < length (leaves d)" and ij: "items ! ?j = (k, s')" by auto
    obtain q w where qw: "leaves d ! ?j = (q, w)" by (cases "leaves d ! ?j")
    from list_all2_nthD[OF rel jl] qw ij have "path_key up prefix q = Some k" by auto
    moreover from jl qw j(1) len have "(q, w) \<in> set (drop (Suc i) (leaves d))"
      by (auto simp: in_set_conv_nth intro!: exI[of _ j])
    ultimately show False using last k(1) by auto
  qed
  from leaf(1) len have "i < length items" by simp
  from store_all_last[OF this k(2) later] env' k(1) show ?thesis by simp
qed

text \<open>
  Three leaves, the first two with the same key: the second, after which only
  \<^verbatim>\<open>c\<close> follows, is the one found under \<^verbatim>\<open>A_B\<close>.
\<close>

theorem set_env_vars_leaf_lookup_witness:
  "set_env_vars ascii_upper (Dict [(SStr ''a'', Dict [(SStr ''b'', Scalar (SInt 1))]),
        (SStr ''a_b'', Scalar (SInt 2)), (SStr ''c'', Seq [Scalar (SStr ''ws'')])]) [] Map.empty
     = Inr [''A_B'' \<mapsto> ''2'', ''C_0'' \<mapsto> ''ws'']
   \<and> leaves (Dict [(SStr ''a'', Dict [(SStr ''b'', Scalar (SInt 1))]),
        (SStr ''a_b'', Scalar (SInt 2)), (SStr ''c'', Seq [Scalar (SStr ''ws'')])]) ! 1
     = ([Key (SStr ''a_b'')], SInt 2)
   \<and> path_key ascii_upper [] [Key (SStr ''a_b'')] = Some ''A_B''
   \<and> [''A_B'' \<mapsto> ''2'', ''C_0'' \<mapsto> ''ws''] ''A_B'' = Some (str (SInt 2))"
proof -
  let ?d = "Dict [(SStr ''a'', Dict [(SStr ''b'', Scalar (SInt 1))]),
        (SStr ''a_b'', Scalar (SInt 2)), (SStr ''c'', Seq [Scalar (SStr ''ws'')])]"
  let ?e = "[''A_B'' \<mapsto> ''2'', ''C_0'' \<mapsto> ''ws'']"
  let ?p = "[Key (SStr ''a_b'')]"
  have run: "set_env_vars ascii_upper ?d [] Map.empty = Inr ?e"
    by (simp add: environ_setitem_def legal_name_def legal_value_def ascii_upper_def upper_char_def
        str_int_def str_nat_digit)
  have lv: "leaves ?d = [([Key (SStr ''a''), Key (SStr ''b'')], SInt 1), (?p, SInt 2),
      ([Key (SStr ''c''), Index 0], SStr ''ws'')]"
    by simp
  have len: "1 < length (leaves ?d)"
    by (simp add: lv)
  have leaf: "leaves ?d ! 1 = (?p, SInt 2)"
    by (simp add: lv)
  have last: "\<forall>(q, w) \<in> set (drop (Suc 1) (leaves ?d)).
      path_key ascii_upper [] q \<noteq> path_key ascii_upper [] ?p"
    by (simp add: lv ascii_upper_def upper_char_def str_nat_digit)
  have pk: "path_key ascii_upper [] ?p = Some ''A_B''"
    by (simp add: ascii_upper_def upper_char_def)
  from set_env_vars_leaf_lookup[OF run len leaf last] pk
  have "?e ''A_B'' = Some (str (SInt 2))" by simp
  with run leaf pk show ?thesis by blast
qed

text \<open>
  The leaves at \<^verbatim>\<open>a.b\<close> and at \<^verbatim>\<open>a_b\<close> both derive
  \<^verbatim>\<open>A_B\<close>: the lookup for the first returns the value of the second.
\<close>

theorem set_env_vars_leaf_lookup_counterexample:
  "set_env_vars ascii_upper (Dict [(SStr ''a'', Dict [(SStr ''b'', Scalar (SInt 1))]), (SStr ''a_b'', Scalar (SInt 2))])
       [] Map.empty = Inr [''A_B'' \<mapsto> ''2'']
   \<and> ([Key (SStr ''a''), Key (SStr ''b'')], SInt 1)
       \<in> set (leaves (Dict [(SStr ''a'', Dict [(SStr ''b'', Scalar (SInt 1))]), (SStr ''a_b'', Scalar (SInt 2))]))
   \<and> path_key ascii_upper [] [Key (SStr ''a''), Key (SStr ''b'')] = Some ''A_B''
   \<and> [''A_B'' \<mapsto> ''2''] ''A_B'' \<noteq> Some (str (SInt 1))"
  by (simp add: environ_setitem_def legal_name_def legal_value_def ascii_upper_def upper_char_def
      str_int_def str_nat_digit)

text \<open>
  C2 (as amended). A completed run stores, in traversal order, the stringified value of
  every leaf under the key of its path, where a mapping node appends
  \<open>"_" + upper(key)\<close> and a sequence node \<open>"_" + index\<close> to a running prefix
  that is not empty, and an empty running prefix is replaced by \<open>upper(key)\<close> or the
  index alone. From a non-empty starting prefix this is the key as the specification
  words it.
\<close>

theorem set_env_vars_builds_keys:
  assumes "set_env_vars up d prefix env = Inr env'"
  shows "\<exists>items. keyed up prefix (leaves d) = Some items \<and> env' = store_all items env
           \<and> (prefix \<noteq> [] \<longrightarrow> spec_keyed up prefix (leaves d) = Some items)"
proof -
  from set_env_vars_keyed(1)[OF assms] obtain items where
    "keyed up prefix (leaves d) = Some items" "env' = store_all items env"
    by blast
  then show ?thesis by (auto simp: keyed_spec)
qed

text \<open>A run from the prefix \<^verbatim>\<open>APP\<close>.\<close>

theorem set_env_vars_builds_keys_witness:
  "set_env_vars ascii_upper (Dict [(SStr ''level'', Scalar (SStr ''INFO'')), (SStr ''ports'', Seq [Scalar (SInt 80)])])
      ''APP'' Map.empty = Inr [''APP_LEVEL'' \<mapsto> ''INFO'', ''APP_PORTS_0'' \<mapsto> ''80'']
   \<and> ''APP'' \<noteq> []
   \<and> (\<exists>items. keyed ascii_upper ''APP'' (leaves (Dict [(SStr ''level'', Scalar (SStr ''INFO'')),
                 (SStr ''ports'', Seq [Scalar (SInt 80)])])) = Some items
         \<and> [''APP_LEVEL'' \<mapsto> ''INFO'', ''APP_PORTS_0'' \<mapsto> ''80''] = store_all items Map.empty
         \<and> spec_keyed ascii_upper ''APP'' (leaves (Dict [(SStr ''level'', Scalar (SStr ''INFO'')),
                 (SStr ''ports'', Seq [Scalar (SInt 80)])])) = Some items)"
proof -
  let ?d = "Dict [(SStr ''level'', Scalar (SStr ''INFO'')), (SStr ''ports'', Seq [Scalar (SInt 80)])]"
  have run: "set_env_vars ascii_upper ?d ''APP'' Map.empty
      = Inr [''APP_LEVEL'' \<mapsto> ''INFO'', ''APP_PORTS_0'' \<mapsto> ''80'']"
    by (simp add: environ_setitem_def legal_name_def legal_value_def ascii_upper_def upper_char_def
        str_int_def str_nat.simps)
  have ne: "''APP'' \<noteq> []" by simp
  from set_env_vars_builds_keys[OF run] ne run show ?thesis by auto
qed

text \<open>
  At the root the prefix is empty: the key of \<^verbatim>\<open>a\<close> is \<^verbatim>\<open>A\<close>,
  and nothing is stored under \<^verbatim>\<open>_A\<close>.
\<close>

theorem set_env_vars_builds_keys_counterexample:
  "set_env_vars ascii_upper (Dict [(SStr ''a'', Scalar (SInt 1))]) [] Map.empty = Inr [''A'' \<mapsto> ''1'']
   \<and> spec_keyed ascii_upper [] (leaves (Dict [(SStr ''a'', Scalar (SInt 1))])) = Some [(''_A'', ''1'')]
   \<and> store_all [(''_A'', ''1'')] Map.empty ''_A'' = Some ''1''
   \<and> [''A'' \<mapsto> ''1''] ''_A'' = None"
  by (simp add: environ_setitem_def legal_name_def legal_value_def ascii_upper_def upper_char_def
      str_int_def str_nat_digit spec_keyed_def store_all_def)

text \<open>
  C8. The variables a run stores depend on the tree and the starting prefix only: the
  outcome from any environment is the outcome from the empty one laid over it, a run
  that completes from one environment completes from every other and stores the same
  keys with the same values, and a second run on the result changes nothing.
\<close>

theorem set_env_vars_deterministic:
  "set_env_vars up d prefix env = overlay env (set_env_vars up d prefix Map.empty)
   \<and> (set_env_vars up d prefix env1 = Inr e1 \<longrightarrow>
        (\<exists>items. keyed up prefix (leaves d) = Some items
           \<and> set_env_vars up d prefix env2 = Inr (store_all items env2)
           \<and> e1 = store_all items env1
           \<and> set_env_vars up d prefix e1 = Inr e1))"
proof (intro conjI impI)
  show "set_env_vars up d prefix env = overlay env (set_env_vars up d prefix Map.empty)"
    by (rule set_env_vars_frame)
next
  assume run: "set_env_vars up d prefix env1 = Inr e1"
  from set_env_vars_keyed(1)[OF run] obtain items where
    items: "keyed up prefix (leaves d) = Some items" and e1: "e1 = store_all items env1"
    by blast
  have any: "set_env_vars up d prefix e = Inr (store_all items e)" for e
  proof -
    from set_env_vars_total(1)[OF run] obtain e' where e': "set_env_vars up d prefix e = Inr e'"
      by blast
    from set_env_vars_keyed(1)[OF e'] items have "e' = store_all items e" by auto
    with e' show ?thesis by simp
  qed
  have "set_env_vars up d prefix e1 = Inr e1"
    using any[of e1] e1 by (simp add: store_all_idem)
  with items e1 any[of env2]
  show "\<exists>items. keyed up prefix (leaves d) = Some items
           \<and> set_env_vars up d prefix env2 = Inr (store_all items env2)
           \<and> e1 = store_all items env1
           \<and> set_env_vars up d prefix e1 = Inr e1"
    by blast
qed

text \<open>A sequence at the root, run twice.\<close>

theorem set_env_vars_deterministic_witness:
  "set_env_vars ascii_upper (Seq [Scalar (SBool True), Dict [(SStr ''x'', Scalar SNone)]]) [] [''HOME'' \<mapsto> ''/root'']
     = Inr [''HOME'' \<mapsto> ''/root'', ''0'' \<mapsto> ''True'', ''1_X'' \<mapsto> ''None'']
   \<and> set_env_vars ascii_upper (Seq [Scalar (SBool True), Dict [(SStr ''x'', Scalar SNone)]]) []
        [''HOME'' \<mapsto> ''/root'', ''0'' \<mapsto> ''True'', ''1_X'' \<mapsto> ''None'']
     = Inr [''HOME'' \<mapsto> ''/root'', ''0'' \<mapsto> ''True'', ''1_X'' \<mapsto> ''None'']"
proof -
  let ?d = "Seq [Scalar (SBool True), Dict [(SStr ''x'', Scalar SNone)]]"
  let ?e = "[''HOME'' \<mapsto> ''/root'', ''0'' \<mapsto> ''True'', ''1_X'' \<mapsto> ''None'']"
  have run: "set_env_vars ascii_upper ?d [] [''HOME'' \<mapsto> ''/root''] = Inr ?e"
    by (simp add: environ_setitem_def legal_name_def legal_value_def ascii_upper_def upper_char_def
        str_nat_digit)
  from set_env_vars_deterministic[of ascii_upper ?d "[]" Map.empty "[''HOME'' \<mapsto> ''/root'']" ?e Map.empty] run
  show ?thesis by blast
qed

section \<open>Properties of the loader\<close>

lemma os_environ_log_call [simp]: "os_environ (log_call m text st) = os_environ st"
  by (simp add: log_call_def)

lemma load_config_document:
  assumes doc: "fs path_to_config = Document data"
    and run: "set_env_vars up data [] ((os_environ st)(''FIRST_RUN'' \<mapsto> ''False'')) = Inr env"
  shows "load_config up fs path_to_config st =
     (let st3 = (log_call Info ''Config loaded, setting environment variables''
                   ((log_call Info ''Attempting to load config'' st)
                      \<lparr>os_environ := (os_environ st)(''FIRST_RUN'' \<mapsto> ''False'')\<rparr>))
                \<lparr>os_environ := env\<rparr> in
      case env ''LOGGING_LEVEL'' of
        None \<Rightarrow> (Inr True, st3)
      | Some lvl \<Rightarrow>
          if lvl = [] then (Inr True, st3)
          else (case setLevel lvl st3 of
                  Inl e \<Rightarrow>
                    if e = ValueError
                    then (Inr False, log_call Error (''Invalid logging level: '' @ lvl) st3)
                    else (Inl e, st3)
                | Inr st4 \<Rightarrow> (Inr True, st4)))"
  using doc run by (simp add: load_config_def Let_def)

text \<open>
  C3. When no file exists at the path, \<^verbatim>\<open>load_config\<close> returns False and
  leaves \<^verbatim>\<open>FIRST_RUN\<close> set to \<^verbatim>\<open>"True"\<close>.
\<close>

theorem load_config_missing:
  assumes "fs path_to_config = Missing"
  shows "fst (load_config up fs path_to_config st) = Inr False
       \<and> os_environ (snd (load_config up fs path_to_config st)) ''FIRST_RUN'' = Some ''True''"
  using assms by (simp add: load_config_def Let_def)

text \<open>
  The loader on a path where nothing exists.
\<close>

theorem load_config_missing_witness:
  "(\<lambda>p. Missing) ''/app/config.yaml'' = Missing
   \<and> fst (load_config ascii_upper (\<lambda>p. Missing) ''/app/config.yaml'' st_init) = Inr False
   \<and> os_environ (snd (load_config ascii_upper (\<lambda>p. Missing) ''/app/config.yaml'' st_init)) ''FIRST_RUN''
       = Some ''True''"
  using load_config_missing[where fs = "\<lambda>p. Missing" and path_to_config = "''/app/config.yaml''"
      and st = st_init and up = ascii_upper]
  by simp




text \<open>
  C5 (as amended). When the document loads, the flattening completes and leaves a non-empty
  \<^verbatim>\<open>LOGGING_LEVEL\<close>, the level is applied right after the flattening: a level
  name the logging library knows becomes the level of the logger and the load succeeds;
  any other text is reported with \<^verbatim>\<open>logger.error\<close>, the level of the logger is
  unchanged and the load returns False. Every value falls under one of the two cases.
\<close>

theorem load_config_logging_level:
  assumes doc: "fs path_to_config = Document data"
    and run: "set_env_vars up data [] ((os_environ st)(''FIRST_RUN'' \<mapsto> ''False'')) = Inr env"
    and lvl: "env ''LOGGING_LEVEL'' = Some lvl" "lvl \<noteq> []"
  shows "(\<forall>n. checkLevel lvl = Inr n \<longrightarrow>
            fst (load_config up fs path_to_config st) = Inr True
          \<and> logger_level (active_logger (snd (load_config up fs path_to_config st))) = n)
       \<and> (checkLevel lvl = Inl ValueError \<longrightarrow>
            fst (load_config up fs path_to_config st) = Inr False
          \<and> (Error, ''Invalid logging level: '' @ lvl)
               \<in> set (logger_calls (active_logger (snd (load_config up fs path_to_config st))))
          \<and> logger_level (active_logger (snd (load_config up fs path_to_config st)))
               = logger_level (active_logger st))
       \<and> (\<exists>e. checkLevel lvl = Inr e \<or> checkLevel lvl = Inl ValueError)"
proof -
  note eq = load_config_document[where fs = fs and path_to_config = path_to_config, OF doc run]
  have 1: "\<forall>n. checkLevel lvl = Inr n \<longrightarrow>
            fst (load_config up fs path_to_config st) = Inr True
          \<and> logger_level (active_logger (snd (load_config up fs path_to_config st))) = n"
    using lvl by (simp add: eq Let_def setLevel_def)
  have 2: "checkLevel lvl = Inl ValueError \<longrightarrow>
            fst (load_config up fs path_to_config st) = Inr False
          \<and> (Error, ''Invalid logging level: '' @ lvl)
               \<in> set (logger_calls (active_logger (snd (load_config up fs path_to_config st))))
          \<and> logger_level (active_logger (snd (load_config up fs path_to_config st)))
               = logger_level (active_logger st)"
    using lvl by (simp add: eq Let_def setLevel_def log_call_def)
  have 3: "\<exists>e. checkLevel lvl = Inr e \<or> checkLevel lvl = Inl ValueError"
    by (simp add: checkLevel_def split: option.splits)
  from 1 2 3 show ?thesis by blast
qed

text \<open>
  A valid override (\<^verbatim>\<open>DEBUG\<close>) and an invalid one (level names are
  upper-case).
\<close>

theorem load_config_logging_level_witness:
  "fst (load_config ascii_upper (\<lambda>p. Document (Dict [(SStr ''logging'', Dict [(SStr ''level'', Scalar (SStr ''DEBUG''))])]))
          ''/app/config.yaml'' st_init) = Inr True
   \<and> logger_level (active_logger (snd (load_config ascii_upper
          (\<lambda>p. Document (Dict [(SStr ''logging'', Dict [(SStr ''level'', Scalar (SStr ''DEBUG''))])]))
          ''/app/config.yaml'' st_init))) = 10
   \<and> fst (load_config ascii_upper (\<lambda>p. Document (Dict [(SStr ''logging'', Dict [(SStr ''level'', Scalar (SStr ''debug''))])]))
          ''/app/config.yaml'' st_init) = Inr False
   \<and> (Error, ''Invalid logging level: debug'')
        \<in> set (logger_calls (active_logger (snd (load_config ascii_upper
          (\<lambda>p. Document (Dict [(SStr ''logging'', Dict [(SStr ''level'', Scalar (SStr ''debug''))])]))
          ''/app/config.yaml'' st_init))))"
proof -
  let ?ok = "Dict [(SStr ''logging'', Dict [(SStr ''level'', Scalar (SStr ''DEBUG''))])]"
  let ?bad = "Dict [(SStr ''logging'', Dict [(SStr ''level'', Scalar (SStr ''debug''))])]"
  let ?env0 = "(os_environ st_init)(''FIRST_RUN'' \<mapsto> ''False'')"
  have run_ok: "set_env_vars ascii_upper ?ok [] ?env0 = Inr (?env0(''LOGGING_LEVEL'' \<mapsto> ''DEBUG''))"
    by (simp add: environ_setitem_def legal_name_def legal_value_def ascii_upper_def upper_char_def)
  have run_bad: "set_env_vars ascii_upper ?bad [] ?env0 = Inr (?env0(''LOGGING_LEVEL'' \<mapsto> ''debug''))"
    by (simp add: environ_setitem_def legal_name_def legal_value_def ascii_upper_def upper_char_def)
  have ok: "checkLevel ''DEBUG'' = Inr 10" by (simp add: checkLevel_def nameToLevel_def)
  have bad: "checkLevel ''debug'' = Inl ValueError" by (simp add: checkLevel_def nameToLevel_def)
  from load_config_logging_level[where fs = "\<lambda>p. Document ?ok" and path_to_config = "''/app/config.yaml''"
      and st = st_init and lvl = "''DEBUG''", OF refl run_ok] ok
  have 1: "fst (load_config ascii_upper (\<lambda>p. Document ?ok) ''/app/config.yaml'' st_init) = Inr True
     \<and> logger_level (active_logger (snd (load_config ascii_upper (\<lambda>p. Document ?ok) ''/app/config.yaml'' st_init))) = 10"
    by simp
  from load_config_logging_level[where fs = "\<lambda>p. Document ?bad" and path_to_config = "''/app/config.yaml''"
      and st = st_init and lvl = "''debug''", OF refl run_bad] bad
  have 2: "fst (load_config ascii_upper (\<lambda>p. Document ?bad) ''/app/config.yaml'' st_init) = Inr False
     \<and> (Error, ''Invalid logging level: debug'')
        \<in> set (logger_calls (active_logger (snd (load_config ascii_upper (\<lambda>p. Document ?bad) ''/app/config.yaml'' st_init))))"
    by simp
  from 1 2 show ?thesis by simp
qed

text \<open>
  A document that sets the level to \<^verbatim>\<open>DEBUG\<close> and has the integer key
  \<^verbatim>\<open>1\<close> after it: the flattening stores \<^verbatim>\<open>LOGGING_LEVEL\<close> and
  then raises \<^verbatim>\<open>AttributeError\<close>, so \<^verbatim>\<open>load_config\<close> raises
  and the level of the logger stays at 20.
\<close>

theorem load_config_logging_level_counterexample:
  "fst (load_config ascii_upper
          (\<lambda>p. Document (Dict [(SStr ''logging'', Dict [(SStr ''level'', Scalar (SStr ''DEBUG''))]),
                                 (SInt 1, Scalar (SStr ''x''))]))
          ''/app/config.yaml'' st_init) = Inl AttributeError
   \<and> os_environ (snd (load_config ascii_upper
          (\<lambda>p. Document (Dict [(SStr ''logging'', Dict [(SStr ''level'', Scalar (SStr ''DEBUG''))]),
                                 (SInt 1, Scalar (SStr ''x''))]))
          ''/app/config.yaml'' st_init)) ''LOGGING_LEVEL'' = Some ''DEBUG''
   \<and> checkLevel ''DEBUG'' = Inr 10
   \<and> logger_level (active_logger (snd (load_config ascii_upper
          (\<lambda>p. Document (Dict [(SStr ''logging'', Dict [(SStr ''level'', Scalar (SStr ''DEBUG''))]),
                                 (SInt 1, Scalar (SStr ''x''))]))
          ''/app/config.yaml'' st_init))) = 20"
  by (simp add: load_config_def Let_def st_init_def log_call_def checkLevel_def nameToLevel_def
      environ_setitem_def legal_name_def legal_value_def ascii_upper_def upper_char_def)

text \<open>
  C9. A load that returns False on a parsed document has failed on the logging level,
  and the environment is not rolled back: it is the environment before the load with
  \<^verbatim>\<open>FIRST_RUN\<close> stored and every flattened variable of the document stored
  over it, each still set to the value stored last for its key.
\<close>

theorem load_config_failure_keeps_environment:
  assumes doc: "fs path_to_config = Document data"
    and fail: "load_config up fs path_to_config st = (Inr False, st')"
  shows "\<exists>items lvl. keyed up [] (leaves data) = Some items
           \<and> os_environ st' = store_all items ((os_environ st)(''FIRST_RUN'' \<mapsto> ''False''))
           \<and> (\<forall>k \<in> fst ` set items. os_environ st' k = map_of (rev items) k \<and> os_environ st' k \<noteq> None)
           \<and> os_environ st' ''LOGGING_LEVEL'' = Some lvl \<and> checkLevel lvl = Inl ValueError"
proof -
  let ?env0 = "(os_environ st)(''FIRST_RUN'' \<mapsto> ''False'')"
  obtain env where run: "set_env_vars up data [] ?env0 = Inr env"
    using doc fail by (cases "set_env_vars up data [] ?env0") (auto simp: load_config_def Let_def)
  note eq = load_config_document[where fs = fs and path_to_config = path_to_config, OF doc run]
  from eq fail obtain lvl where lvl: "env ''LOGGING_LEVEL'' = Some lvl" "lvl \<noteq> []"
    and chk: "checkLevel lvl = Inl ValueError" and env: "os_environ st' = env"
    by (auto simp: Let_def setLevel_def checkLevel_def split: option.splits if_splits)
  from set_env_vars_keyed(1)[OF run] obtain items where
    items: "keyed up [] (leaves data) = Some items" "env = store_all items ?env0"
    by blast
  have "\<forall>k \<in> fst ` set items. os_environ st' k = map_of (rev items) k \<and> os_environ st' k \<noteq> None"
    using store_all_inside[of _ items ?env0] env items(2) by auto
  with items env lvl chk show ?thesis by auto
qed

text \<open>
  A document with a name and an unknown level: the load fails and \<^verbatim>\<open>NAME\<close>
  stays in the environment.
\<close>

theorem load_config_failure_keeps_environment_witness:
  "load_config ascii_upper (\<lambda>p. Document (Dict [(SStr ''name'', Scalar (SStr ''x'')),
        (SStr ''logging'', Dict [(SStr ''level'', Scalar (SStr ''verbose''))])])) ''/app/config.yaml'' st_init
     = (Inr False,
        \<lparr>os_environ = [''FIRST_RUN'' \<mapsto> ''False'', ''NAME'' \<mapsto> ''x'', ''LOGGING_LEVEL'' \<mapsto> ''verbose''],
         active_logger = \<lparr>logger_level = 20,
           logger_calls = [(Info, ''Attempting to load config''),
                           (Info, ''Config loaded, setting environment variables''),
                           (Error, ''Invalid logging level: verbose'')]\<rparr>\<rparr>)
   \<and> (\<exists>items lvl.
         keyed ascii_upper [] (leaves (Dict [(SStr ''name'', Scalar (SStr ''x'')),
            (SStr ''logging'', Dict [(SStr ''level'', Scalar (SStr ''verbose''))])])) = Some items
       \<and> [''FIRST_RUN'' \<mapsto> ''False'', ''NAME'' \<mapsto> ''x'', ''LOGGING_LEVEL'' \<mapsto> ''verbose'']
            = store_all items [''FIRST_RUN'' \<mapsto> ''False'']
       \<and> (\<forall>k \<in> fst ` set items.
             [''FIRST_RUN'' \<mapsto> ''False'', ''NAME'' \<mapsto> ''x'', ''LOGGING_LEVEL'' \<mapsto> ''verbose''] k
               = map_of (rev items) k
           \<and> [''FIRST_RUN'' \<mapsto> ''False'', ''NAME'' \<mapsto> ''x'', ''LOGGING_LEVEL'' \<mapsto> ''verbose''] k \<noteq> None)
       \<and> [''FIRST_RUN'' \<mapsto> ''False'', ''NAME'' \<mapsto> ''x'', ''LOGGING_LEVEL'' \<mapsto> ''verbose'']
            ''LOGGING_LEVEL'' = Some lvl
       \<and> checkLevel lvl = Inl ValueError)"
proof -
  let ?d = "Dict [(SStr ''name'', Scalar (SStr ''x'')),
        (SStr ''logging'', Dict [(SStr ''level'', Scalar (SStr ''verbose''))])]"
  let ?st' = "\<lparr>os_environ = [''FIRST_RUN'' \<mapsto> ''False'', ''NAME'' \<mapsto> ''x'', ''LOGGING_LEVEL'' \<mapsto> ''verbose''],
         active_logger = \<lparr>logger_level = 20,
           logger_calls = [(Info, ''Attempting to load config''),
                           (Info, ''Config loaded, setting environment variables''),
                           (Error, ''Invalid logging level: verbose'')]\<rparr>\<rparr>"
  have fail: "load_config ascii_upper (\<lambda>p. Document ?d) ''/app/config.yaml'' st_init = (Inr False, ?st')"
    by (simp add: load_config_def Let_def st_init_def log_call_def setLevel_def checkLevel_def
        nameToLevel_def environ_setitem_def legal_name_def legal_value_def ascii_upper_def upper_char_def)
  from load_config_failure_keeps_environment[where fs = "\<lambda>p. Document ?d"
      and path_to_config = "''/app/config.yaml''" and st = st_init, OF refl fail] fail
  show ?thesis by (simp add: st_init_def)
qed

section \<open>Properties of the logging setup\<close>

text \<open>
  C6. The suppression filter returns False exactly for the records whose logger name is
  in the exclusion list; the level and the message of the record play no part. This holds
  for the filter of both modules.
\<close>

theorem LoggingFilter_filter_iff:
  "(LoggingFilter_filter excl r = False \<longleftrightarrow> name r \<in> set excl)
   \<and> LoggingFilter_filter excl (r\<lparr>levelno := l, msg := m\<rparr>) = LoggingFilter_filter excl r
   \<and> (LoggingFilter_filter_toplevel r = False \<longleftrightarrow> name r \<in> set FILTER)
   \<and> LoggingFilter_filter_toplevel (r\<lparr>levelno := l, msg := m\<rparr>) = LoggingFilter_filter_toplevel r"
  by (simp add: LoggingFilter_filter_def LoggingFilter_filter_toplevel_def)

text \<open>
  C10. \<^verbatim>\<open>set_log_level\<close> does not look at its arguments: whatever logger and
  level it is given, the root logger ends at INFO and every other logger keeps its level.
\<close>

theorem set_log_level_ignores_arguments:
  "set_log_level logger level reg = set_log_level logger' level' reg
   \<and> set_log_level logger level reg [] = logging_INFO
   \<and> (n \<noteq> [] \<longrightarrow> set_log_level logger level reg n = reg n)"
  by (simp add: set_log_level_def)

text \<open>
  The registry with every logger at NOTSET.
\<close>

theorem set_log_level_ignores_arguments_witness:
  "''websockets.server'' \<noteq> []
   \<and> set_log_level ''SETUP'' 10 (\<lambda>n. 0) = set_log_level ''other'' 50 (\<lambda>n. 0)
   \<and> set_log_level ''SETUP'' 10 (\<lambda>n. 0) [] = logging_INFO
   \<and> set_log_level ''SETUP'' 10 (\<lambda>n. 0) ''websockets.server'' = 0"
proof -
  have ne: "''websockets.server'' \<noteq> []" by simp
  from set_log_level_ignores_arguments[of "''SETUP''" 10 "\<lambda>n. 0" "''other''" 50 "''websockets.server''"] ne
  show ?thesis by blast
qed

lemma configure_handlers_LOGGING_CONFIG:
  "configure_handlers can_append (LOGGING_CONFIG env p) (handlers (LOGGING_CONFIG env p)) =
     (if isl (checkLevel (log_level env)) \<or> \<not> can_append p then Inl ValueError
      else Inr [(''default'',
                 if env ''LOGGING_COLORED'' = Some ''True'' then ColoredFormatter else Formatter),
                (''file'', Formatter)])"
  by (simp add: LOGGING_CONFIG_def configure_handler_def)

lemma dictConfig_LOGGING_CONFIG:
  "dictConfig can_append (LOGGING_CONFIG env p) =
     (if isl (checkLevel (log_level env)) \<or> \<not> can_append p then Inl ValueError
      else Inr [(''default'',
                 if env ''LOGGING_COLORED'' = Some ''True'' then ColoredFormatter else Formatter),
                (''file'', Formatter)])"
  unfolding dictConfig_def configure_handlers_LOGGING_CONFIG
  by (simp add: LOGGING_CONFIG_def)

lemma dictConfig_LOGGING_CONFIG_toplevel:
  "dictConfig can_append (LOGGING_CONFIG_toplevel p) =
     (if can_append p then Inr [(''default'', ColoredFormatter), (''file'', Formatter)]
      else Inl ValueError)"
  by (simp add: dictConfig_def LOGGING_CONFIG_toplevel_def configure_handler_def LOG_LEVEL_def
      checkLevel_def nameToLevel_def)

text \<open>
  C7 (as amended). Where \<^verbatim>\<open>dictConfig\<close> installs the configuration of
  \<^verbatim>\<open>python/logger_config.py\<close>, the console handler gets
  \<^verbatim>\<open>ColoredFormatter\<close> exactly when \<^verbatim>\<open>LOGGING_COLORED\<close> is
  \<^verbatim>\<open>"True"\<close> and the plain formatter otherwise, and the file handler gets the
  plain formatter; it installs it exactly when the level taken from
  \<^verbatim>\<open>LOGGING_LEVEL\<close> is one the logging library knows and the log file opens,
  and raises otherwise, leaving no sink. The top-level \<^verbatim>\<open>logger_config.py\<close>
  reads no flag: where its configuration is installed, which is when the log file opens,
  the console handler gets \<^verbatim>\<open>ColoredFormatter\<close> and the file handler the
  plain formatter.
\<close>

theorem console_formatter_choice:
  "(dictConfig can_append (LOGGING_CONFIG env p) = Inr sinks \<longrightarrow>
      map_of sinks ''default''
        = Some (if env ''LOGGING_COLORED'' = Some ''True'' then ColoredFormatter else Formatter)
    \<and> map_of sinks ''file'' = Some Formatter)
   \<and> (isl (dictConfig can_append (LOGGING_CONFIG env p))
        \<longleftrightarrow> isl (checkLevel (log_level env)) \<or> \<not> can_append p)
   \<and> (dictConfig can_append (LOGGING_CONFIG_toplevel p) = Inr sinks' \<longrightarrow>
      map_of sinks' ''default'' = Some ColoredFormatter
    \<and> map_of sinks' ''file'' = Some Formatter)
   \<and> (isl (dictConfig can_append (LOGGING_CONFIG_toplevel p)) \<longleftrightarrow> \<not> can_append p)"
  by (auto simp add: dictConfig_LOGGING_CONFIG dictConfig_LOGGING_CONFIG_toplevel split: if_splits)

text \<open>
  Both modules with a log file that opens, the environment saying that colours are
  available and asking for the level \<^verbatim>\<open>DEBUG\<close>.
\<close>

theorem console_formatter_choice_witness:
  "dictConfig (\<lambda>f. True) (LOGGING_CONFIG [''LOGGING_COLORED'' \<mapsto> ''True'', ''LOGGING_LEVEL'' \<mapsto> ''DEBUG'']
       ''logs/2024-01-01.log'') = Inr [(''default'', ColoredFormatter), (''file'', Formatter)]
   \<and> dictConfig (\<lambda>f. True) (LOGGING_CONFIG_toplevel ''logs/2024-01-01.log'')
       = Inr [(''default'', ColoredFormatter), (''file'', Formatter)]
   \<and> map_of [(''default'', ColoredFormatter), (''file'', Formatter)] ''default'' = Some ColoredFormatter
   \<and> map_of [(''default'', ColoredFormatter), (''file'', Formatter)] ''file'' = Some Formatter"
proof -
  let ?env = "[''LOGGING_COLORED'' \<mapsto> ''True'', ''LOGGING_LEVEL'' \<mapsto> ''DEBUG'']"
  let ?sinks = "[(''default'', ColoredFormatter), (''file'', Formatter)]"
  have 1: "dictConfig (\<lambda>f. True) (LOGGING_CONFIG ?env ''logs/2024-01-01.log'') = Inr ?sinks"
    by (simp add: dictConfig_def LOGGING_CONFIG_def configure_handler_def log_level_def
        checkLevel_def nameToLevel_def)
  have 2: "dictConfig (\<lambda>f. True) (LOGGING_CONFIG_toplevel ''logs/2024-01-01.log'') = Inr ?sinks"
    by (simp add: dictConfig_def LOGGING_CONFIG_toplevel_def configure_handler_def LOG_LEVEL_def
        checkLevel_def nameToLevel_def)
  from console_formatter_choice[of "\<lambda>f. True" ?env "''logs/2024-01-01.log''" ?sinks ?sinks] 1 2
  have "map_of ?sinks ''default'' = Some ColoredFormatter \<and> map_of ?sinks ''file'' = Some Formatter"
    by simp
  with 1 2 show ?thesis by blast
qed

text \<open>
  The top-level module colours the console also when the flag says there is no colour
  support; and with a level the logging library does not know, the module under
  \<^verbatim>\<open>python/\<close> raises and has no console sink, plain or coloured.
\<close>

theorem console_formatter_choice_counterexample:
  "[''LOGGING_COLORED'' \<mapsto> ''False''] ''LOGGING_COLORED'' \<noteq> Some ''True''
   \<and> dictConfig (\<lambda>f. True) (LOGGING_CONFIG_toplevel ''logs/2024-01-01.log'')
       = Inr [(''default'', ColoredFormatter), (''file'', Formatter)]
   \<and> dictConfig (\<lambda>f. True)
         (LOGGING_CONFIG [''LOGGING_COLORED'' \<mapsto> ''False'', ''LOGGING_LEVEL'' \<mapsto> ''verbose'']
            ''logs/2024-01-01.log'') = Inl ValueError"
  by (simp add: dictConfig_def LOGGING_CONFIG_def LOGGING_CONFIG_toplevel_def configure_handler_def
      log_level_def LOG_LEVEL_def checkLevel_def nameToLevel_def)

end
